theory Spec2Isabelle
  imports Main
begin

section \<open>Python strings\<close>

text \<open>
  A Python \<^verbatim>\<open>str\<close> is a list of code points, each a natural number; \<open>ascii\<close> gives
  the \<^verbatim>\<open>str\<close> of an ASCII literal. The character classes are those of CPython 3.11
  (Unicode 14.0): \<^verbatim>\<open>str.isdigit\<close> is true of 788 code points, the decimal digits of
  every script and the other digit characters such as the superscripts U+00B2, U+00B3
  and U+00B9; \<^verbatim>\<open>str.strip\<close> removes the 29 code points of which \<^verbatim>\<open>str.isspace\<close> is
  true.
\<close>

type_synonym str = "nat list"

definition ascii :: "string \<Rightarrow> str" where
  "ascii s = map of_char s"

definition in_ranges :: "(nat \<times> nat) list \<Rightarrow> nat \<Rightarrow> bool" where
  "in_ranges rs c = list_ex (\<lambda>(lo, hi). lo \<le> c \<and> c \<le> hi) rs"

definition isdigit_ranges :: "(nat \<times> nat) list" where
  "isdigit_ranges =
    [(0x0030, 0x0039), (0x00B2, 0x00B3), (0x00B9, 0x00B9), (0x0660, 0x0669),
     (0x06F0, 0x06F9), (0x07C0, 0x07C9), (0x0966, 0x096F), (0x09E6, 0x09EF),
     (0x0A66, 0x0A6F), (0x0AE6, 0x0AEF), (0x0B66, 0x0B6F), (0x0BE6, 0x0BEF),
     (0x0C66, 0x0C6F), (0x0CE6, 0x0CEF), (0x0D66, 0x0D6F), (0x0DE6, 0x0DEF),
     (0x0E50, 0x0E59), (0x0ED0, 0x0ED9), (0x0F20, 0x0F29), (0x1040, 0x1049),
     (0x1090, 0x1099), (0x1369, 0x1371), (0x17E0, 0x17E9), (0x1810, 0x1819),
     (0x1946, 0x194F), (0x19D0, 0x19DA), (0x1A80, 0x1A89), (0x1A90, 0x1A99),
     (0x1B50, 0x1B59), (0x1BB0, 0x1BB9), (0x1C40, 0x1C49), (0x1C50, 0x1C59),
     (0x2070, 0x2070), (0x2074, 0x2079), (0x2080, 0x2089), (0x2460, 0x2468),
     (0x2474, 0x247C), (0x2488, 0x2490), (0x24EA, 0x24EA), (0x24F5, 0x24FD),
     (0x24FF, 0x24FF), (0x2776, 0x277E), (0x2780, 0x2788), (0x278A, 0x2792),
     (0xA620, 0xA629), (0xA8D0, 0xA8D9), (0xA900, 0xA909), (0xA9D0, 0xA9D9),
     (0xA9F0, 0xA9F9), (0xAA50, 0xAA59), (0xABF0, 0xABF9), (0xFF10, 0xFF19),
     (0x104A0, 0x104A9), (0x10A40, 0x10A43), (0x10D30, 0x10D39), (0x10E60, 0x10E68),
     (0x11052, 0x1105A), (0x11066, 0x1106F), (0x110F0, 0x110F9), (0x11136, 0x1113F),
     (0x111D0, 0x111D9), (0x112F0, 0x112F9), (0x11450, 0x11459), (0x114D0, 0x114D9),
     (0x11650, 0x11659), (0x116C0, 0x116C9), (0x11730, 0x11739), (0x118E0, 0x118E9),
     (0x11950, 0x11959), (0x11C50, 0x11C59), (0x11D50, 0x11D59), (0x11DA0, 0x11DA9),
     (0x16A60, 0x16A69), (0x16AC0, 0x16AC9), (0x16B50, 0x16B59), (0x1D7CE, 0x1D7FF),
     (0x1E140, 0x1E149), (0x1E2F0, 0x1E2F9), (0x1E950, 0x1E959), (0x1F100, 0x1F10A),
     (0x1FBF0, 0x1FBF9)]"

definition isdigit_char :: "nat \<Rightarrow> bool" where
  "isdigit_char c = in_ranges isdigit_ranges c"

text \<open>\<^verbatim>\<open>s.isdigit()\<close>: at least one character, and every character a digit.\<close>

definition isdigit :: "str \<Rightarrow> bool" where
  "isdigit s = (s \<noteq> [] \<and> list_all isdigit_char s)"

definition isspace_ranges :: "(nat \<times> nat) list" where
  "isspace_ranges =
    [(0x0009, 0x000D), (0x001C, 0x0020), (0x0085, 0x0085), (0x00A0, 0x00A0),
     (0x1680, 0x1680), (0x2000, 0x200A), (0x2028, 0x2029), (0x202F, 0x202F),
     (0x205F, 0x205F), (0x3000, 0x3000)]"

definition isspace_char :: "nat \<Rightarrow> bool" where
  "isspace_char c = in_ranges isspace_ranges c"

text \<open>\<^verbatim>\<open>s.strip()\<close> and \<^verbatim>\<open>s.rstrip(chars)\<close>.\<close>

definition strip :: "str \<Rightarrow> str" where
  "strip s = rev (dropWhile isspace_char (rev (dropWhile isspace_char s)))"

definition rstrip :: "str \<Rightarrow> str \<Rightarrow> str" where
  "rstrip chars s = rev (dropWhile (\<lambda>c. c \<in> set chars) (rev s))"

definition startswith :: "str \<Rightarrow> str \<Rightarrow> bool" where
  "startswith s p = (take (length p) s = p)"

definition endswith :: "str \<Rightarrow> str \<Rightarrow> bool" where
  "endswith s p = (length p \<le> length s \<and> drop (length s - length p) s = p)"

text \<open>\<^verbatim>\<open>p in s\<close> on strings: \<open>p\<close> occurs in \<open>s\<close> as a contiguous run.\<close>

fun contains :: "str \<Rightarrow> str \<Rightarrow> bool" where
  "contains [] p = (p = [])"
| "contains (c # cs) p = (startswith (c # cs) p \<or> contains cs p)"

text \<open>\<^verbatim>\<open>s.split(sep)\<close> for a separator of one character; the result is never empty.\<close>

fun split_on :: "nat \<Rightarrow> str \<Rightarrow> str list" where
  "split_on sep [] = [[]]"
| "split_on sep (c # cs) =
     (if c = sep then [] # split_on sep cs
      else (case split_on sep cs of [] \<Rightarrow> [[c]] | w # ws \<Rightarrow> (c # w) # ws))"

text \<open>\<^verbatim>\<open>str\<close> of a Python integer; the digit \<open>n\<close> is the code point \<open>48 + n\<close>.\<close>

fun digits :: "nat \<Rightarrow> str" where
  "digits n = (if n < 10 then [48 + n] else digits (n div 10) @ [48 + n mod 10])"

definition str_int :: "int \<Rightarrow> str" where
  "str_int i = (if i < 0 then 45 # digits (nat (- i)) else digits (nat i))"

section \<open>The crawler (craw.py)\<close>

subsection \<open>Data\<close>

text \<open>
  An entry of a listing page, the dictionaries that \<^verbatim>\<open>parse_directory\<close> builds: the
  constructor is the \<^verbatim>\<open>"type"\<close> key.
\<close>

datatype item =
    Folder (item_name: str) (item_url: str) (item_parent: str)
  | File (item_name: str) (item_url: str) (item_size: str) (item_date: str)
      (item_parent: str)

record file_info =
  original_name :: str
  file_url :: str
  file_size :: str
  file_date :: str

record folder_data =
  url :: str
  files :: "file_info list"
  subfolders :: "str list"

text \<open>
  A Python \<^verbatim>\<open>dict\<close> keeps its keys in insertion order; it is an association list.
  \<open>dict_set\<close> is the assignment \<^verbatim>\<open>d[k] = v\<close>, \<open>dict_modify\<close> the in-place change of
  the object stored under \<open>k\<close> (\<^verbatim>\<open>d[k]["files"].append(...)\<close>).
\<close>

type_synonym 'v dict = "(str \<times> 'v) list"

definition dict_contains :: "str \<Rightarrow> 'v dict \<Rightarrow> bool" where
  "dict_contains k d = (k \<in> set (map fst d))"

fun dict_set :: "str \<Rightarrow> 'v \<Rightarrow> 'v dict \<Rightarrow> 'v dict" where
  "dict_set k v [] = [(k, v)]"
| "dict_set k v ((k', v') # d) = (if k' = k then (k, v) # d else (k', v') # dict_set k v d)"

definition dict_modify :: "str \<Rightarrow> ('v \<Rightarrow> 'v) \<Rightarrow> 'v dict \<Rightarrow> 'v dict" where
  "dict_modify k f d = map (\<lambda>(k', v). if k' = k then (k', f v) else (k', v)) d"

text \<open>
  What the spreadsheet and the JSON file hold once written, and the rows of the data
  frame: folder id, original name, the empty column for the new name, size, date, file
  URL and folder URL.
\<close>

record row =
  row_folder_id :: str
  row_original_name :: str
  row_new_name :: str
  row_size :: str
  row_date :: str
  row_file_url :: str
  row_folder_url :: str

datatype document = Json "folder_data dict" | Excel "row list"

text \<open>
  The mutable attributes of a \<^verbatim>\<open>WebsiteCrawler\<close>, with two more components that the
  claims speak about: \<open>requests\<close> logs the URL of every \<^verbatim>\<open>session.get\<close> in order, and
  \<open>outputs\<close> is the part of the file system the crawler writes to. The attribute
  \<^verbatim>\<open>max_depth\<close> is never assigned after the constructor; it is passed as a parameter.
\<close>

record crawler =
  file_structure :: "folder_data dict"
  visited_folders :: "str set"
  requests :: "str list"
  outputs :: "str \<rightharpoonup> document"

definition init_crawler :: crawler where
  "init_crawler = \<lparr>file_structure = [], visited_folders = {}, requests = [], outputs = Map.empty\<rparr>"

text \<open>
  A hyperlink of a parsed page, as the code reads it: \<^verbatim>\<open>link.get('href')\<close>, and the
  stripped text of the table cell found by \<^verbatim>\<open>link.find_next_sibling('td')\<close> together
  with the stripped text of that cell's own next \<^verbatim>\<open>td\<close> sibling.
\<close>

record anchor =
  href :: "str option"
  size_cell :: "(str \<times> str option) option"

text \<open>
  What a GET request meets: no response at all (connection error, timeout), or a
  response with a status code whose body either makes the parser raise or parses into
  the list \<^verbatim>\<open>soup.find_all('a')\<close>. The network answers a request for a URL depending
  on the requests made before.
\<close>

datatype body = Unparseable | Links "anchor list"

datatype reply = No_reply | Reply nat body

type_synonym network = "str list \<Rightarrow> str \<Rightarrow> reply"

text \<open>
  \<^verbatim>\<open>urllib.parse.urljoin\<close> is a parameter of the model. In the crawler it is called
  inside the \<^verbatim>\<open>try\<close> block of \<^verbatim>\<open>parse_directory\<close>, where it may raise
  \<^verbatim>\<open>ValueError\<close>: the result \<open>None\<close>.
\<close>

type_synonym urljoin_or_raise = "str \<Rightarrow> str \<Rightarrow> str option"

subsection \<open>Classifying links\<close>

text \<open>\<^verbatim>\<open>re.sub(r'[\\/*?:"<>|]', '_', name)\<close>\<close>

definition clean_name :: "str \<Rightarrow> str" where
  "clean_name name =
     map (\<lambda>c. if c \<in> set (ascii ([CHR 0x5C, CHR 0x22] @ ''/*?:<>|'')) then 95 else c) name"

definition is_valid_folder :: "str \<Rightarrow> bool" where
  "is_valid_folder folder_name = isdigit folder_name"

definition sort_params :: "str list" where
  "sort_params = [ascii ''C=N'', ascii ''C=M'', ascii ''C=S'', ascii ''C=D'']"

definition is_valid_file :: "str \<Rightarrow> bool" where
  "is_valid_file h =
     (if startswith h (ascii ''?'') \<or> endswith h (ascii ''/'') then False
      else if h \<in> set [ascii ''../'', ascii ''./''] then False
      else if list_ex (\<lambda>param. contains h param) sort_params then False
      else True)"

text \<open>
  The body of the loop over the links of a page: the entries it appends (none or
  one), or \<open>None\<close> when \<^verbatim>\<open>urljoin\<close> raises while the entry is built.
\<close>

definition parse_link :: "urljoin_or_raise \<Rightarrow> str \<Rightarrow> anchor \<Rightarrow> item list option" where
  "parse_link urljoin u link =
     (case href link of
        None \<Rightarrow> Some []
      | Some h0 \<Rightarrow>
          if h0 = [] then Some []
          else
            let h = strip h0 in
            if endswith h (ascii ''/'') then
              (let folder_name = rstrip (ascii ''/'') h in
               if is_valid_folder folder_name
               then (case urljoin u h of
                       None \<Rightarrow> None
                     | Some joined \<Rightarrow> Some [Folder folder_name joined u])
               else Some [])
            else if is_valid_file h then
              (let sz = (case size_cell link of None \<Rightarrow> [] | Some (s, _) \<Rightarrow> s);
                   dt = (case size_cell link of
                           None \<Rightarrow> [] | Some (_, None) \<Rightarrow> [] | Some (_, Some d) \<Rightarrow> d)
               in (case urljoin u h of
                     None \<Rightarrow> None
                   | Some joined \<Rightarrow> Some [File (clean_name h) joined sz dt u]))
            else Some [])"

text \<open>The loop: the list \<^verbatim>\<open>items\<close> at its end, or \<open>None\<close> when a round raises.\<close>

fun parse_links :: "urljoin_or_raise \<Rightarrow> str \<Rightarrow> anchor list \<Rightarrow> item list option" where
  "parse_links urljoin u [] = Some []"
| "parse_links urljoin u (link # links) =
     (case parse_link urljoin u link of
        None \<Rightarrow> None
      | Some entries \<Rightarrow>
          (case parse_links urljoin u links of
             None \<Rightarrow> None
           | Some others \<Rightarrow> Some (entries @ others)))"

text \<open>\<^verbatim>\<open>response.raise_for_status()\<close> raises on the status codes 400 to 599.\<close>

definition raise_for_status :: "nat \<Rightarrow> bool" where
  "raise_for_status status = (400 \<le> status \<and> status < 600)"

subsection \<open>parse\_directory and crawl\_folder\<close>

text \<open>
  The \<^verbatim>\<open>try\<close> statement of \<^verbatim>\<open>parse_directory\<close>: the request is logged, and every
  exception of the block (of the request, of the status check, of the parser, of
  \<^verbatim>\<open>urljoin\<close>) ends in the handler, which returns the empty list.
\<close>

definition try_block :: "urljoin_or_raise \<Rightarrow> network \<Rightarrow> crawler \<Rightarrow> str \<Rightarrow> item list \<times> crawler" where
  "try_block urljoin net c u =
     (let c' = c\<lparr>requests := requests c @ [u]\<rparr>
      in (case net (requests c) u of
            No_reply \<Rightarrow> ([], c')
          | Reply status b \<Rightarrow>
              if raise_for_status status then ([], c')
              else (case b of
                      Unparseable \<Rightarrow> ([], c')
                    | Links links \<Rightarrow>
                        (case parse_links urljoin u links of
                           None \<Rightarrow> ([], c')
                         | Some entries \<Rightarrow> (entries, c')))))"

text \<open>\<^verbatim>\<open>parse_directory\<close> returns its list and the crawler after the call.\<close>

definition parse_directory ::
  "urljoin_or_raise \<Rightarrow> network \<Rightarrow> int \<Rightarrow> crawler \<Rightarrow> str \<Rightarrow> int \<Rightarrow> item list \<times> crawler" where
  "parse_directory urljoin net max_depth c u depth =
     (if depth > max_depth then ([], c)
      else if u \<in> visited_folders c then ([], c)
      else try_block urljoin net (c\<lparr>visited_folders := insert u (visited_folders c)\<rparr>) u)"

definition folder_id_of :: "str \<Rightarrow> str" where
  "folder_id_of folder_url = last (split_on 47 (rstrip (ascii ''/'') folder_url))"

definition new_folder :: "str \<Rightarrow> folder_data" where
  "new_folder folder_url = \<lparr>url = folder_url, files = [], subfolders = []\<rparr>"

definition add_subfolder :: "str \<Rightarrow> str \<Rightarrow> crawler \<Rightarrow> crawler" where
  "add_subfolder folder_id name c =
     c\<lparr>file_structure :=
         dict_modify folder_id (\<lambda>fd. fd\<lparr>subfolders := subfolders fd @ [name]\<rparr>)
           (file_structure c)\<rparr>"

definition add_file ::
  "str \<Rightarrow> str \<Rightarrow> str \<Rightarrow> str \<Rightarrow> str \<Rightarrow> crawler \<Rightarrow> crawler" where
  "add_file folder_id name u sz dt c =
     c\<lparr>file_structure :=
         dict_modify folder_id
           (\<lambda>fd. fd\<lparr>files := files fd @
              [\<lparr>original_name = name, file_url = u, file_size = sz, file_date = dt\<rparr>]\<rparr>)
           (file_structure c)\<rparr>"

text \<open>
  \<open>crawl_folder\<close> and the loop over the entries of a folder, \<open>crawl_items\<close>. The
  recursion ends because the depth grows up to \<open>max_depth\<close>.
\<close>

function crawl_folder ::
    "urljoin_or_raise \<Rightarrow> network \<Rightarrow> int \<Rightarrow> crawler \<Rightarrow> str \<Rightarrow> int \<Rightarrow> crawler"
  and crawl_items ::
    "urljoin_or_raise \<Rightarrow> network \<Rightarrow> int \<Rightarrow> crawler \<Rightarrow> str \<Rightarrow> item list \<Rightarrow> int \<Rightarrow> crawler"
where
  "crawl_folder urljoin net max_depth c folder_url depth =
     (if depth > max_depth then c
      else
        let folder_id = folder_id_of folder_url in
        if \<not> isdigit folder_id then c
        else if dict_contains folder_id (file_structure c) then c
        else
          (case parse_directory urljoin net max_depth c folder_url depth of
             (items, c1) \<Rightarrow>
               if items = [] then c1
               else crawl_items urljoin net max_depth
                      (c1\<lparr>file_structure :=
                            dict_set folder_id (new_folder folder_url) (file_structure c1)\<rparr>)
                      folder_id items depth))"
| "crawl_items urljoin net max_depth c folder_id [] depth = c"
| "crawl_items urljoin net max_depth c folder_id (it # items) depth =
     (case it of
        Folder name u _ \<Rightarrow>
          crawl_items urljoin net max_depth
            (crawl_folder urljoin net max_depth (add_subfolder folder_id name c) u (depth + 1))
            folder_id items depth
      | File name u sz dt _ \<Rightarrow>
          crawl_items urljoin net max_depth (add_file folder_id name u sz dt c)
            folder_id items depth)"
  by pat_completeness auto
termination
  by (relation "measures
        [\<lambda>x. case x of
            Inl (_, _, m, _, _, d) \<Rightarrow> 2 * nat (m + 1 - d)
          | Inr (_, _, m, _, _, _, d) \<Rightarrow> 2 * nat (m - d) + 1,
         \<lambda>x. case x of
            Inl _ \<Rightarrow> 0
          | Inr (_, _, _, _, _, items, _) \<Rightarrow> length items]")
     auto

text \<open>
  Calls of \<open>crawl_folder\<close> that do not overlap: each call, with its URL and depth, runs
  to its end before the next one starts.
\<close>

definition sequential_calls ::
  "urljoin_or_raise \<Rightarrow> network \<Rightarrow> int \<Rightarrow> (str \<times> int) list \<Rightarrow> crawler \<Rightarrow> crawler" where
  "sequential_calls urljoin net max_depth calls c =
     fold (\<lambda>(u, depth) c'. crawl_folder urljoin net max_depth c' u depth) calls c"

subsection \<open>Calls of parse\_directory on several threads\<close>






subsection \<open>save\_to\_json and generate\_excel\<close>

text \<open>
  \<open>save_to_json\<close> returns the filtered dictionary and the crawler after the call, the
  JSON document written to \<open>output_file\<close>.
\<close>

definition filtered_structure :: "folder_data dict \<Rightarrow> folder_data dict" where
  "filtered_structure d = filter (\<lambda>(folder_id, fd). files fd \<noteq> []) d"

definition save_to_json :: "crawler \<Rightarrow> str \<Rightarrow> folder_data dict \<times> crawler" where
  "save_to_json c output_file =
     (let fs = filtered_structure (file_structure c)
      in (fs, c\<lparr>outputs := (outputs c)(output_file \<mapsto> Json fs)\<rparr>))"

text \<open>
  The rows that \<open>generate_excel\<close> collects for one folder: none when the folder has no
  files, else one per file.
\<close>

definition folder_rows :: "str \<times> folder_data \<Rightarrow> row list" where
  "folder_rows e =
     (case e of (folder_id, fd) \<Rightarrow>
        if files fd = [] then []
        else map (\<lambda>fi. \<lparr>row_folder_id = folder_id, row_original_name = original_name fi,
                         row_new_name = [], row_size = file_size fi, row_date = file_date fi,
                         row_file_url = file_url fi, row_folder_url = url fd\<rparr>) (files fd))"

text \<open>
  \<open>generate_excel\<close> returns the rows of the data frame and the crawler after the call.
  With no row at all it returns before writing; \<^verbatim>\<open>df.to_excel\<close> may raise (\<open>to_excel_ok\<close>
  is false), which the handler logs.
\<close>

definition generate_excel :: "bool \<Rightarrow> crawler \<Rightarrow> str \<Rightarrow> row list \<times> crawler" where
  "generate_excel to_excel_ok c output_file =
     (let data = concat (map folder_rows (file_structure c)) in
      if data = [] then ([], c)
      else if to_excel_ok then (data, c\<lparr>outputs := (outputs c)(output_file \<mapsto> Excel data)\<rparr>)
      else (data, c))"

section \<open>The downloader (freem\_downloader.py)\<close>

subsection \<open>download\_file\<close>

definition RETRIES :: nat where
  "RETRIES = 3"

text \<open>
  What one \<^verbatim>\<open>session.get(url, stream=True)\<close> meets: the request raises (connection
  error, timeout), or a response arrives with its status code, its \<^verbatim>\<open>content-length\<close>
  header (absent, a number, or text that \<^verbatim>\<open>int\<close> rejects) and the chunks that
  \<^verbatim>\<open>iter_content\<close> yields before it ends or raises.
\<close>

type_synonym bytes = "nat list"

datatype stream_end = Complete | Broken

datatype header = Missing | Number int | Garbage

datatype download_reply = Get_failed | Response nat header "bytes list" stream_end

type_synonym server = "str list \<Rightarrow> str \<Rightarrow> download_reply"

text \<open>
  What the local file system does in one attempt: \<^verbatim>\<open>open(local_path, 'wb')\<close> raises
  (no such directory, no permission) and makes no file, or it opens the file and then
  either every \<^verbatim>\<open>f.write\<close> succeeds (\<open>Opened None\<close>) or \<open>n\<close> of them do and the next one
  raises (\<open>Opened (Some n)\<close>), adding nothing to the file. Like the remote, it may
  answer differently from one attempt to the next.
\<close>

datatype local_file = Open_error | Opened "nat option"

type_synonym local_os = "str list \<Rightarrow> str \<Rightarrow> local_file"

text \<open>
  The world of a download: the files on the local disk, and what the download has done
  so far, in order: the GET requests with their URL and the calls of \<^verbatim>\<open>time.sleep\<close>
  with their seconds. The progress lines on the console are left out. \<open>gets\<close> is the
  list of the URLs requested so far.
\<close>

datatype event = Get str | Sleep nat

record world =
  disk :: "str \<rightharpoonup> bytes"
  events :: "event list"

fun requested :: "event list \<Rightarrow> str list" where
  "requested [] = []"
| "requested (Get u # es) = u # requested es"
| "requested (Sleep n # es) = requested es"

definition gets :: "world \<Rightarrow> str list" where
  "gets w = requested (events w)"

text \<open>
  The loop over the chunks: an empty chunk is skipped, any other is written at the end
  of the file. The result is the content written and whether a write raised.
\<close>

fun write_chunks :: "nat option \<Rightarrow> bytes list \<Rightarrow> bytes \<Rightarrow> bytes \<times> bool" where
  "write_chunks budget [] content = (content, False)"
| "write_chunks budget (chunk # chunks) content =
     (if chunk \<noteq> [] then
        (case budget of
           None \<Rightarrow> write_chunks None chunks (content @ chunk)
         | Some 0 \<Rightarrow> (content, True)
         | Some (Suc n) \<Rightarrow> write_chunks (Some n) chunks (content @ chunk))
      else write_chunks budget chunks content)"

text \<open>
  One round of the \<^verbatim>\<open>for attempt in range(RETRIES)\<close> loop: \<open>True\<close> when it returns
  \<^verbatim>\<open>True\<close>, \<open>False\<close> when the handler has printed and slept. \<^verbatim>\<open>open(local_path, 'wb')\<close>
  creates the file or truncates it.
\<close>

definition handler :: "world \<Rightarrow> bool \<times> world" where
  "handler w = (False, w\<lparr>events := events w @ [Sleep 1]\<rparr>)"

definition attempt ::
  "server \<Rightarrow> local_os \<Rightarrow> str \<Rightarrow> str \<Rightarrow> world \<Rightarrow> bool \<times> world" where
  "attempt session os u local_path w =
     (let w1 = w\<lparr>events := events w @ [Get u]\<rparr> in
      case session (gets w) u of
        Get_failed \<Rightarrow> handler w1
      | Response status content_length chunks ending \<Rightarrow>
          if raise_for_status status then handler w1
          else if content_length = Garbage then handler w1
          else
            (case os (gets w) local_path of
               Open_error \<Rightarrow> handler w1
             | Opened budget \<Rightarrow>
                 (case write_chunks budget chunks [] of
                    (content, write_raised) \<Rightarrow>
                      let w2 = w1\<lparr>disk := (disk w1)(local_path \<mapsto> content)\<rparr>
                      in if write_raised then handler w2
                         else if ending = Broken then handler w2
                         else (True, w2))))"

fun attempts ::
  "nat \<Rightarrow> server \<Rightarrow> local_os \<Rightarrow> str \<Rightarrow> str \<Rightarrow> world \<Rightarrow> bool \<times> world" where
  "attempts 0 session os u local_path w = (False, w)"
| "attempts (Suc n) session os u local_path w =
     (case attempt session os u local_path w of
        (ok, w') \<Rightarrow> if ok then (True, w') else attempts n session os u local_path w')"

definition download_file ::
  "server \<Rightarrow> local_os \<Rightarrow> str \<Rightarrow> str \<Rightarrow> world \<Rightarrow> bool \<times> world" where
  "download_file session os u local_path w =
     (if local_path \<in> dom (disk w) then (True, w)
      else attempts RETRIES session os u local_path w)"

subsection \<open>crawl\_from\_number\<close>

text \<open>
  In the downloader the URLs that \<^verbatim>\<open>urljoin\<close> returns are given by a function; a
  \<^verbatim>\<open>ValueError\<close> of a join in the \<^verbatim>\<open>try\<close> block is one of the exceptions of the
  outcome \<open>Raises\<close> below.
\<close>

type_synonym urljoin = "str \<Rightarrow> str \<Rightarrow> str"

text \<open>The links that the loop over \<^verbatim>\<open>soup.find_all('a')\<close> appends to \<^verbatim>\<open>files\<close>.\<close>

definition listed_files :: "urljoin \<Rightarrow> str \<Rightarrow> anchor list \<Rightarrow> str list" where
  "listed_files urljoin dir_url links =
     concat (map (\<lambda>a. case href a of
                     None \<Rightarrow> []
                   | Some h \<Rightarrow>
                       if h \<noteq> [] \<and> \<not> (startswith h (ascii ''../'') \<or> startswith h (ascii ''./''))
                          \<and> \<not> endswith h (ascii ''/'')
                       then [urljoin dir_url h] else []) links)"

text \<open>
  What a call inside the \<^verbatim>\<open>try\<close> block does: it returns, it raises an
  \<^verbatim>\<open>Exception\<close>, or a \<^verbatim>\<open>KeyboardInterrupt\<close> arrives during it. One round of the loop
  meets three such calls: the HEAD request with its status code, the GET request with
  the parsed links, and the download of the files (\<^verbatim>\<open>makedirs\<close> and the thread pool,
  up to the last \<^verbatim>\<open>future.result()\<close>).
\<close>

datatype 'a outcome = Returns 'a | Raises | Interrupted

record probe =
  head_status :: "nat outcome"
  listing :: "anchor list outcome"
  downloading :: "unit outcome"

text \<open>One round of \<^verbatim>\<open>while True\<close>: go on with a directory number, or \<^verbatim>\<open>break\<close>.\<close>

datatype control = Next int | Stop

definition probe_directory :: "urljoin \<Rightarrow> str \<Rightarrow> probe \<Rightarrow> int \<Rightarrow> control" where
  "probe_directory urljoin base_url p current_num =
     (let dir_url = urljoin base_url (str_int current_num @ ascii ''/'') in
      case head_status p of
        Interrupted \<Rightarrow> Stop
      | Raises \<Rightarrow> Next (current_num + 1)
      | Returns status \<Rightarrow>
          if status \<noteq> 200 then Next (current_num + 1)
          else
            (case listing p of
               Interrupted \<Rightarrow> Stop
             | Raises \<Rightarrow> Next (current_num + 1)
             | Returns links \<Rightarrow>
                 if listed_files urljoin dir_url links = [] then Next (current_num + 1)
                 else
                   (case downloading p of
                      Interrupted \<Rightarrow> Stop
                    | Raises \<Rightarrow> Next (current_num + 1)
                    | Returns _ \<Rightarrow> Next (current_num + 1))))"

text \<open>
  The loop: round \<open>i\<close> meets \<open>env i\<close>. The loop has no result of its own; the model
  returns the directory number at which it stopped, and \<open>None\<close> when it never stops.
\<close>

partial_function (option) crawl_loop ::
  "urljoin \<Rightarrow> str \<Rightarrow> (nat \<Rightarrow> probe) \<Rightarrow> nat \<Rightarrow> int \<Rightarrow> int option" where
  "crawl_loop urljoin base_url env i current_num =
     (case probe_directory urljoin base_url (env i) current_num of
        Stop \<Rightarrow> Some current_num
      | Next n \<Rightarrow> crawl_loop urljoin base_url env (Suc i) n)"

definition crawl_from_number ::
  "urljoin \<Rightarrow> (nat \<Rightarrow> probe) \<Rightarrow> str \<Rightarrow> int \<Rightarrow> int option" where
  "crawl_from_number urljoin env base_url start_num = crawl_loop urljoin base_url env 0 start_num"

section \<open>Vocabulary of the properties\<close>

text \<open>
  The invariant of the request log: no URL was requested twice, and every URL
  requested is marked as visited.
\<close>

definition fetch_inv :: "crawler \<Rightarrow> bool" where
  "fetch_inv c = (distinct (requests c) \<and> set (requests c) \<subseteq> visited_folders c)"


text \<open>The crawler once \<open>parse_directory\<close> has marked a URL and requested it.\<close>

definition mark_fetched :: "str \<Rightarrow> crawler \<Rightarrow> crawler" where
  "mark_fetched u c =
     c\<lparr>visited_folders := insert u (visited_folders c), requests := requests c @ [u]\<rparr>"


text \<open>
  The remote makes a download attempt fail when the request raises, the status is an
  error, the \<^verbatim>\<open>content-length\<close> header is unreadable or the stream breaks.
\<close>

definition remote_fails :: "download_reply \<Rightarrow> bool" where
  "remote_fails r =
     (case r of
        Get_failed \<Rightarrow> True
      | Response status content_length chunks ending \<Rightarrow>
          raise_for_status status \<or> content_length = Garbage \<or> ending = Broken)"

text \<open>
  An attempt opens the file when it gets as far as \<^verbatim>\<open>open\<close> and \<^verbatim>\<open>open\<close> succeeds;
  \<open>written\<close> is what it has put into the file when it ends, and \<open>attempt_disk\<close> the
  disk it leaves. An attempt fails when it does not open the file, a write raises, or
  the stream breaks.
\<close>

definition opens :: "download_reply \<Rightarrow> local_file \<Rightarrow> bool" where
  "opens r l =
     (case r of
        Get_failed \<Rightarrow> False
      | Response status content_length chunks ending \<Rightarrow>
          \<not> raise_for_status status \<and> content_length \<noteq> Garbage \<and> l \<noteq> Open_error)"

definition written :: "download_reply \<Rightarrow> local_file \<Rightarrow> bytes" where
  "written r l =
     (case r of
        Get_failed \<Rightarrow> []
      | Response status content_length chunks ending \<Rightarrow>
          (case l of Open_error \<Rightarrow> [] | Opened budget \<Rightarrow> fst (write_chunks budget chunks [])))"

definition write_raises :: "download_reply \<Rightarrow> local_file \<Rightarrow> bool" where
  "write_raises r l =
     (case r of
        Get_failed \<Rightarrow> False
      | Response status content_length chunks ending \<Rightarrow>
          (case l of Open_error \<Rightarrow> False | Opened budget \<Rightarrow> snd (write_chunks budget chunks [])))"

definition attempt_fails :: "download_reply \<Rightarrow> local_file \<Rightarrow> bool" where
  "attempt_fails r l = (remote_fails r \<or> \<not> opens r l \<or> write_raises r l)"

definition attempt_disk ::
  "download_reply \<Rightarrow> local_file \<Rightarrow> str \<Rightarrow> (str \<rightharpoonup> bytes) \<Rightarrow> (str \<rightharpoonup> bytes)" where
  "attempt_disk r l p d = (if opens r l then d(p \<mapsto> written r l) else d)"

text \<open>
  A \<^verbatim>\<open>KeyboardInterrupt\<close> arrives during a call that the round of the loop reaches:
  the HEAD request, the GET request after a status of 200, or the download after a
  listing with at least one file.
\<close>

definition interrupted :: "urljoin \<Rightarrow> str \<Rightarrow> probe \<Rightarrow> int \<Rightarrow> bool" where
  "interrupted urljoin base_url p current_num =
     (head_status p = Interrupted
      \<or> (head_status p = Returns 200
         \<and> (case listing p of
              Interrupted \<Rightarrow> True
            | Raises \<Rightarrow> False
            | Returns links \<Rightarrow>
                listed_files urljoin (urljoin base_url (str_int current_num @ ascii ''/'')) links
                  \<noteq> []
                \<and> downloading p = Interrupted)))"

subsection \<open>Sample inputs\<close>

definition join :: urljoin where
  "join b h = b @ h"

definition join_ok :: urljoin_or_raise where
  "join_ok b h = Some (b @ h)"




definition superscript_net :: network where
  "superscript_net log u = Reply 200 (Links [\<lparr>href = Some [0xB2, 47], size_cell = None\<rparr>])"


text \<open>
  The tree of the end-to-end scenario: folder 1 with a file, folder 2 with nothing but
  the parent link, folder 3 with a file and the subfolder 30, which has a file.
\<close>

definition tree_net :: network where
  "tree_net log u =
     (if u = ascii ''http://h/1/'' then
        Reply 200 (Links [\<lparr>href = Some (ascii ''../''), size_cell = None\<rparr>,
                          \<lparr>href = Some (ascii ''a.txt''),
                           size_cell = Some (ascii ''10'', None)\<rparr>])
      else if u = ascii ''http://h/2/'' then
        Reply 200 (Links [\<lparr>href = Some (ascii ''../''), size_cell = None\<rparr>])
      else if u = ascii ''http://h/3/'' then
        Reply 200 (Links [\<lparr>href = Some (ascii ''b.bin''),
                           size_cell = Some (ascii ''500'', None)\<rparr>,
                          \<lparr>href = Some (ascii ''30/''), size_cell = None\<rparr>])
      else if u = ascii ''http://h/3/30/'' then
        Reply 200 (Links [\<lparr>href = Some (ascii ''c.txt''), size_cell = None\<rparr>])
      else Reply 404 (Links []))"



definition two_folders :: crawler where
  "two_folders =
     \<lparr>file_structure =
        [(ascii ''1'',
          \<lparr>url = ascii ''http://h/1/'',
           files = [\<lparr>original_name = ascii ''a.txt'', file_url = ascii ''http://h/1/a.txt'',
                     file_size = ascii ''10'', file_date = ascii ''2020''\<rparr>],
           subfolders = []\<rparr>),
         (ascii ''2'',
          \<lparr>url = ascii ''http://h/2/'', files = [], subfolders = [ascii ''20'']\<rparr>)],
      visited_folders = {ascii ''http://h/1/'', ascii ''http://h/2/''},
      requests = [ascii ''http://h/1/'', ascii ''http://h/2/''],
      outputs = Map.empty\<rparr>"

definition empty_world :: world where
  "empty_world = \<lparr>disk = Map.empty, events = []\<rparr>"

definition leftover_world :: world where
  "leftover_world =
     \<lparr>disk = [ascii ''/d/1/a.zip'' \<mapsto> ascii ''par''], events = []\<rparr>"

definition dead_server :: server where
  "dead_server log u = Get_failed"

definition always_broken :: server where
  "always_broken log u = Response 200 Missing [ascii ''ab''] Broken"


text \<open>A local file system that opens and writes every file, and one that opens none.\<close>

definition writable :: local_os where
  "writable log p = Opened None"


definition absent :: probe where
  "absent = \<lparr>head_status = Returns 404, listing = Raises, downloading = Raises\<rparr>"

definition ctrl_c :: probe where
  "ctrl_c = \<lparr>head_status = Interrupted, listing = Raises, downloading = Raises\<rparr>"

section \<open>The crawler: visited folders and the request log\<close>

text \<open>Literals unfold to their code points.\<close>

lemma ascii_simps [simp]:
  "ascii [] = []"
  "ascii (ch # s) = of_char ch # ascii s"
  by (simp_all add: ascii_def)

declare crawl_folder.simps [simp del]

lemma try_block_crawler:
  "snd (try_block urljoin net c u) = c\<lparr>requests := requests c @ [u]\<rparr>"
  by (simp add: try_block_def Let_def split: reply.splits body.splits option.splits)




lemma parse_directory_crawler:
  "snd (parse_directory urljoin net m c u d)
     = (if d \<le> m \<and> u \<notin> visited_folders c then mark_fetched u c else c)"
  by (simp add: parse_directory_def try_block_crawler mark_fetched_def)

lemma parse_directory_file_structure:
  "file_structure (snd (parse_directory urljoin net m c u d)) = file_structure c"
  by (simp add: parse_directory_crawler mark_fetched_def)


lemma add_subfolder_frame [simp]:
  "requests (add_subfolder k n c) = requests c"
  "visited_folders (add_subfolder k n c) = visited_folders c"
  by (simp_all add: add_subfolder_def)

lemma add_file_frame [simp]:
  "requests (add_file k n u s dt c) = requests c"
  "visited_folders (add_file k n u s dt c) = visited_folders c"
  by (simp_all add: add_file_def)

lemma fetch_inv_file_structure [simp]:
  "fetch_inv (c\<lparr>file_structure := d\<rparr>) = fetch_inv c"
  by (simp add: fetch_inv_def)

lemma fetch_inv_add [simp]:
  "fetch_inv (add_subfolder k n c) = fetch_inv c"
  "fetch_inv (add_file k n u s dt c) = fetch_inv c"
  by (simp_all add: fetch_inv_def)

lemma crawl_preserves:
  assumes pars: "\<And>urljoin net m c u d. P c \<Longrightarrow> P (snd (parse_directory urljoin net m c u d))"
    and new: "\<And>c k u. P c \<Longrightarrow>
                P (c\<lparr>file_structure := dict_set k (new_folder u) (file_structure c)\<rparr>)"
    and sub: "\<And>c k n. P c \<Longrightarrow> P (add_subfolder k n c)"
    and addf: "\<And>c k n u s dt. P c \<Longrightarrow> P (add_file k n u s dt c)"
  shows "P c \<Longrightarrow> P (crawl_folder urljoin net m c u d)"
    and "P c \<Longrightarrow> P (crawl_items urljoin net m c k items d)"
proof (induction urljoin net m c u d and urljoin net m c k items d
       rule: crawl_folder_crawl_items.induct)
  case (1 urljoin net max_depth c folder_url depth)
  show ?case
  proof (cases "depth > max_depth \<or> \<not> isdigit (folder_id_of folder_url)
                \<or> dict_contains (folder_id_of folder_url) (file_structure c)")
    case True
    then show ?thesis using "1.prems"(1) by (auto simp: crawl_folder.simps Let_def)
  next
    case False
    obtain items c1 where
      p: "parse_directory urljoin net max_depth c folder_url depth = (items, c1)"
      by (cases "parse_directory urljoin net max_depth c folder_url depth")
    have c1: "P c1"
      using pars [OF "1.prems"(1), of urljoin net max_depth folder_url depth] p by simp
    show ?thesis
    proof (cases "items = []")
      case True
      then show ?thesis using False p c1 by (simp add: crawl_folder.simps Let_def)
    next
      case nonempty: False
      have "P (crawl_items urljoin net max_depth
              (c1\<lparr>file_structure :=
                    dict_set (folder_id_of folder_url) (new_folder folder_url)
                      (file_structure c1)\<rparr>)
              (folder_id_of folder_url) items depth)"
        using "1.IH" [of "folder_id_of folder_url" items c1] False p nonempty new [OF c1]
        by simp
      then show ?thesis using False p nonempty by (simp add: crawl_folder.simps Let_def)
    qed
  qed
next
  case (2 urljoin net max_depth c folder_id depth)
  then show ?case by simp
next
  case (3 urljoin net max_depth c folder_id it items depth)
  show ?case
  proof (cases it)
    case (Folder name u p)
    have "P (crawl_folder urljoin net max_depth (add_subfolder folder_id name c) u (depth + 1))"
      using "3.IH"(1) [OF Folder sub [OF "3.prems"(1)]] .
    then have "P (crawl_items urljoin net max_depth
        (crawl_folder urljoin net max_depth (add_subfolder folder_id name c) u (depth + 1))
        folder_id items depth)"
      using "3.IH"(2) [OF Folder] by blast
    then show ?thesis using Folder by simp
  next
    case (File name u sz dt p)
    have "P (crawl_items urljoin net max_depth (add_file folder_id name u sz dt c)
              folder_id items depth)"
      using "3.IH"(3) [OF File addf [OF "3.prems"(1)]] .
    then show ?thesis using File by simp
  qed
qed













text \<open>
  The model run on the end-to-end scenario: the folders 1, 3 and 30 are recorded,
  folder 2 is not, and four requests are made.
\<close>

lemma end_to_end_scenario:
  "map fst (file_structure (sequential_calls join_ok tree_net 2
      [(ascii ''http://h/1/'', 0), (ascii ''http://h/2/'', 0), (ascii ''http://h/3/'', 0)]
      init_crawler))
     = [ascii ''1'', ascii ''3'', ascii ''30'']
   \<and> requests (sequential_calls join_ok tree_net 2
      [(ascii ''http://h/1/'', 0), (ascii ''http://h/2/'', 0), (ascii ''http://h/3/'', 0)]
      init_crawler)
     = [ascii ''http://h/1/'', ascii ''http://h/2/'', ascii ''http://h/3/'',
        ascii ''http://h/3/30/'']"
  by (simp add: sequential_calls_def crawl_folder.simps parse_directory_def try_block_def
      init_crawler_def tree_net_def raise_for_status_def parse_link_def strip_def rstrip_def
      endswith_def startswith_def is_valid_folder_def is_valid_file_def sort_params_def
      isdigit_def isdigit_char_def isspace_char_def in_ranges_def isdigit_ranges_def
      isspace_ranges_def clean_name_def join_ok_def folder_id_of_def dict_contains_def
      new_folder_def add_subfolder_def add_file_def dict_modify_def Let_def)

section \<open>The crawler: a fetch that fails\<close>






lemma dict_modify_keys: "map fst (dict_modify k f d) = map fst d"
  by (induction d) (auto simp: dict_modify_def)

lemma add_subfolder_contains [simp]:
  "dict_contains k' (file_structure (add_subfolder k n c)) = dict_contains k' (file_structure c)"
  by (simp add: add_subfolder_def dict_contains_def dict_modify_keys)




section \<open>The crawler: folder entries\<close>

text \<open>
  Every folder entry that \<open>parse_directory\<close> returns has a name that passes
  \<^verbatim>\<open>str.isdigit\<close>.
\<close>

lemma parse_link_folder:
  "parse_link urljoin u link = Some entries \<Longrightarrow> Folder name fu p \<in> set entries \<Longrightarrow>
   isdigit name"
  by (auto simp: parse_link_def is_valid_folder_def Let_def
      split: option.splits if_splits prod.splits)

lemma parse_links_folder:
  "parse_links urljoin u links = Some entries \<Longrightarrow> Folder name fu p \<in> set entries \<Longrightarrow>
   isdigit name"
proof (induction links arbitrary: entries)
  case Nil
  then show ?case by simp
next
  case (Cons link links)
  then show ?case
    by (auto split: option.splits dest: parse_link_folder)
qed

lemma folder_names_pass_isdigit:
  assumes "Folder name fu p \<in> set (fst (parse_directory urljoin net m c u d))"
  shows "isdigit name"
  using assms
  by (auto simp: parse_directory_def try_block_def Let_def
      split: if_splits reply.splits body.splits option.splits dest: parse_links_folder)

text \<open>
  Claim C8. \<^verbatim>\<open>str.isdigit\<close> is true of more than the decimal digits. A page with the
  link \<^verbatim>\<open>href="\<close>U+00B2\<^verbatim>\<open>/"\<close> yields a folder entry whose name is the superscript
  two: a name that is not empty and is no string of the digits 0 to 9.
\<close>

theorem folder_name_superscript_two:
  "fst (parse_directory join_ok superscript_net 2 init_crawler (ascii ''http://h/1/'') 0)
     = [Folder [0xB2] (ascii ''http://h/1/'' @ [0xB2, 47]) (ascii ''http://h/1/'')]
   \<and> [0xB2] \<noteq> [] \<and> \<not> set [0xB2] \<subseteq> set (ascii ''0123456789'')"
  by (simp add: parse_directory_def try_block_def init_crawler_def superscript_net_def
      raise_for_status_def parse_link_def strip_def rstrip_def endswith_def is_valid_folder_def
      isdigit_def isdigit_char_def isspace_char_def in_ranges_def isdigit_ranges_def
      isspace_ranges_def join_ok_def Let_def)

section \<open>The crawler: the keys of the inventory\<close>

lemma dict_set_keys: "fst ` set (dict_set k v d) = insert k (fst ` set d)"
  by (induction k v d rule: dict_set.induct) auto

lemma dict_set_distinct: "distinct (map fst d) \<Longrightarrow> distinct (map fst (dict_set k v d))"
  by (induction k v d rule: dict_set.induct) (auto simp: dict_set_keys)

lemma dict_modify_key_set: "fst ` set (dict_modify k f d) = fst ` set d"
  using dict_modify_keys [of k f d] by (metis set_map)

text \<open>
  A key of \<open>file_structure\<close> stays one: the lookups \<^verbatim>\<open>self.file_structure[folder_id]\<close>
  in the loop of \<open>crawl_folder\<close> find the record made before the loop.
\<close>

lemma crawl_folder_keeps_keys:
  assumes "dict_contains k (file_structure c)"
  shows "dict_contains k (file_structure (crawl_folder urljoin net m c u d))"
  using assms
  by (rule crawl_preserves(1) [where P = "\<lambda>c. dict_contains k (file_structure c)", rotated -1])
     (simp_all add: parse_directory_file_structure dict_contains_def dict_set_keys
        dict_modify_key_set add_subfolder_def add_file_def)

lemma crawl_items_keeps_keys:
  assumes "dict_contains k (file_structure c)"
  shows "dict_contains k (file_structure (crawl_items urljoin net m c k' items d))"
  using assms
  by (rule crawl_preserves(2) [where P = "\<lambda>c. dict_contains k (file_structure c)", rotated -1])
     (simp_all add: parse_directory_file_structure dict_contains_def dict_set_keys
        dict_modify_key_set add_subfolder_def add_file_def)

text \<open>The keys of \<open>file_structure\<close> are distinct throughout a crawl run.\<close>

lemma crawl_folder_distinct_keys:
  assumes "distinct (map fst (file_structure c))"
  shows "distinct (map fst (file_structure (crawl_folder urljoin net m c u d)))"
  using assms
  by (rule crawl_preserves(1) [where P = "\<lambda>c. distinct (map fst (file_structure c))", rotated -1])
     (simp_all add: parse_directory_file_structure dict_set_distinct dict_modify_keys
        add_subfolder_def add_file_def)

lemma sequential_calls_distinct_keys:
  "distinct (map fst (file_structure c)) \<Longrightarrow>
   distinct (map fst (file_structure (sequential_calls urljoin net m calls c)))"
proof (induction calls arbitrary: c)
  case Nil
  then show ?case by (simp add: sequential_calls_def)
next
  case (Cons call calls)
  obtain u d where call: "call = (u, d)" by (cases call)
  have "distinct (map fst (file_structure (crawl_folder urljoin net m c u d)))"
    using Cons.prems by (rule crawl_folder_distinct_keys)
  from Cons.IH [OF this] show ?case by (simp add: sequential_calls_def call)
qed

lemma distinct_keys_unique:
  "distinct (map fst d) \<Longrightarrow> (k, v) \<in> set d \<Longrightarrow> (k, v') \<in> set d \<Longrightarrow> v = v'"
  by (meson eq_key_imp_eq_value)

section \<open>The crawler: what is persisted\<close>

lemma folder_rows_row:
  "r \<in> set (folder_rows (k, fd)) \<Longrightarrow> row_folder_id r = k \<and> files fd \<noteq> []"
  by (auto simp: folder_rows_def split: if_splits)

lemma generate_excel_rows:
  assumes "r \<in> set (fst (generate_excel ok c out))"
  shows "\<exists>fd. (row_folder_id r, fd) \<in> set (file_structure c) \<and> files fd \<noteq> []"
proof -
  have "r \<in> set (concat (map folder_rows (file_structure c)))"
    using assms by (auto simp: generate_excel_def Let_def split: if_splits)
  then obtain k fd where "(k, fd) \<in> set (file_structure c)" "r \<in> set (folder_rows (k, fd))"
    by auto
  then show ?thesis using folder_rows_row by blast
qed

text \<open>
  Claim C9. For a crawler whose \<open>file_structure\<close> is a dictionary (its keys are
  distinct), the document that \<open>save_to_json\<close> writes is the dictionary it returns;
  its entries are exactly the entries of \<open>file_structure\<close> whose list of files is not
  empty; and a folder of \<open>file_structure\<close> with no files is no key of the persisted
  dictionary and the folder id of no row of \<open>generate_excel\<close>.
\<close>

theorem persisted_inventory_omits_empty_folders:
  assumes "distinct (map fst (file_structure c))"
  shows "outputs (snd (save_to_json c out)) out = Some (Json (fst (save_to_json c out)))
    \<and> set (fst (save_to_json c out)) = {e. e \<in> set (file_structure c) \<and> files (snd e) \<noteq> []}
    \<and> ((k, fd) \<in> set (file_structure c) \<and> files fd = [] \<longrightarrow>
          \<not> dict_contains k (fst (save_to_json c out))
          \<and> (\<forall>r \<in> set (fst (generate_excel ok c xlsx)). row_folder_id r \<noteq> k))"
proof -
  have s: "set (fst (save_to_json c out))
             = {e. e \<in> set (file_structure c) \<and> files (snd e) \<noteq> []}"
    by (auto simp: save_to_json_def filtered_structure_def Let_def)
  have o: "outputs (snd (save_to_json c out)) out = Some (Json (fst (save_to_json c out)))"
    by (simp add: save_to_json_def Let_def)
  have e: "\<not> dict_contains k (fst (save_to_json c out))
          \<and> (\<forall>r \<in> set (fst (generate_excel ok c xlsx)). row_folder_id r \<noteq> k)"
    if m: "(k, fd) \<in> set (file_structure c)" and z: "files fd = []"
  proof
    show "\<not> dict_contains k (fst (save_to_json c out))"
    proof
      assume "dict_contains k (fst (save_to_json c out))"
      then obtain fd' where "(k, fd') \<in> set (fst (save_to_json c out))"
        by (auto simp: dict_contains_def)
      then have "(k, fd') \<in> set (file_structure c)" "files fd' \<noteq> []" unfolding s by auto
      with distinct_keys_unique [OF assms m] z show False by auto
    qed
    show "\<forall>r \<in> set (fst (generate_excel ok c xlsx)). row_folder_id r \<noteq> k"
    proof
      fix r assume "r \<in> set (fst (generate_excel ok c xlsx))"
      from generate_excel_rows [OF this] obtain fd' where
        "(row_folder_id r, fd') \<in> set (file_structure c)" "files fd' \<noteq> []" by blast
      with distinct_keys_unique [OF assms m] z show "row_folder_id r \<noteq> k" by auto
    qed
  qed
  show ?thesis using s o e by blast
qed

theorem persisted_inventory_omits_empty_folders_witness:
  "distinct (map fst (file_structure two_folders))
   \<and> (ascii ''2'', \<lparr>url = ascii ''http://h/2/'', files = [], subfolders = [ascii ''20'']\<rparr>)
       \<in> set (file_structure two_folders)
   \<and> map fst (fst (save_to_json two_folders (ascii ''o.json''))) = [ascii ''1'']
   \<and> \<not> dict_contains (ascii ''2'') (fst (save_to_json two_folders (ascii ''o.json'')))
   \<and> map row_folder_id (fst (generate_excel True two_folders (ascii ''o.xlsx'')))
       = [ascii ''1'']"
proof -
  have d: "distinct (map fst (file_structure two_folders))"
    by (simp add: two_folders_def)
  have m: "(ascii ''2'', \<lparr>url = ascii ''http://h/2/'', files = [], subfolders = [ascii ''20'']\<rparr>)
       \<in> set (file_structure two_folders)"
    by (simp add: two_folders_def)
  have s: "map fst (fst (save_to_json two_folders (ascii ''o.json''))) = [ascii ''1'']"
    by (simp add: save_to_json_def filtered_structure_def two_folders_def Let_def)
  have x: "map row_folder_id (fst (generate_excel True two_folders (ascii ''o.xlsx'')))
       = [ascii ''1'']"
    by (simp add: generate_excel_def folder_rows_def two_folders_def Let_def)
  from persisted_inventory_omits_empty_folders [where c = two_folders and k = "ascii ''2''"
      and out = "ascii ''o.json''"
      and fd = "\<lparr>url = ascii ''http://h/2/'', files = [], subfolders = [ascii ''20'']\<rparr>"] d m
  have "\<not> dict_contains (ascii ''2'') (fst (save_to_json two_folders (ascii ''o.json'')))"
    by simp
  with d m s x show ?thesis by blast
qed

text \<open>
  Claim C10. \<open>save_to_json\<close> and \<open>generate_excel\<close> leave \<open>file_structure\<close> as it was,
  folders without files included, and the visited folders and the request log too;
  what they change is the output file.
\<close>

theorem exports_leave_inventory_unchanged:
  "file_structure (snd (save_to_json c out)) = file_structure c
   \<and> visited_folders (snd (save_to_json c out)) = visited_folders c
   \<and> requests (snd (save_to_json c out)) = requests c
   \<and> file_structure (snd (generate_excel ok c out)) = file_structure c
   \<and> visited_folders (snd (generate_excel ok c out)) = visited_folders c
   \<and> requests (snd (generate_excel ok c out)) = requests c"
  by (simp add: save_to_json_def generate_excel_def Let_def)

section \<open>The downloader: download\_file\<close>



lemma requested_append [simp]: "requested (es @ es') = requested es @ requested es'"
  by (induction es rule: requested.induct) simp_all

lemma gets_world [simp]: "gets \<lparr>disk = d, events = es\<rparr> = requested es"
  by (simp add: gets_def)

lemma attempt_eq:
  "attempt session os u p w =
     (\<not> attempt_fails (session (gets w) u) (os (gets w) p),
      \<lparr>disk = attempt_disk (session (gets w) u) (os (gets w) p) p (disk w),
       events = events w @ (if attempt_fails (session (gets w) u) (os (gets w) p)
                            then [Get u, Sleep 1] else [Get u])\<rparr>)"
  by (cases w)
     (auto simp: attempt_def attempt_fails_def remote_fails_def opens_def write_raises_def
        written_def attempt_disk_def handler_def Let_def
      split: download_reply.splits local_file.splits prod.splits)

lemma attempts_RETRIES:
  "attempts RETRIES s os u p w =
     (case attempt s os u p w of (ok, w1) \<Rightarrow> if ok then (True, w1) else
      case attempt s os u p w1 of (ok, w2) \<Rightarrow> if ok then (True, w2) else
      case attempt s os u p w2 of (ok, w3) \<Rightarrow> if ok then (True, w3) else (False, w3))"
  by (simp add: RETRIES_def numeral_3_eq_3 split: prod.splits)

text \<open>
  Claim C5. When a file exists at \<open>local_path\<close>, \<open>download_file\<close> returns \<open>True\<close> and
  the world is as before: no request was made, and the disk, the existing file
  included, is unchanged, whatever the file holds.
\<close>

theorem download_file_skips_existing:
  "local_path \<in> dom (disk w) \<Longrightarrow>
   download_file session os u local_path w = (True, w)
   \<and> gets (snd (download_file session os u local_path w)) = gets w
   \<and> disk (snd (download_file session os u local_path w)) = disk w"
  by (simp add: download_file_def)

theorem download_file_skips_existing_witness:
  "ascii ''/d/1/a.zip'' \<in> dom (disk leftover_world)
   \<and> download_file dead_server writable (ascii ''http://h/1/a.zip'') (ascii ''/d/1/a.zip'')
        leftover_world
       = (True, leftover_world)
   \<and> gets leftover_world = []
   \<and> events leftover_world = []
   \<and> disk leftover_world (ascii ''/d/1/a.zip'') = Some (ascii ''par'')"
proof -
  have e: "ascii ''/d/1/a.zip'' \<in> dom (disk leftover_world)"
    by (simp add: leftover_world_def)
  from download_file_skips_existing [OF e, of dead_server writable "ascii ''http://h/1/a.zip''"] e
  show ?thesis by (simp add: leftover_world_def)
qed

text \<open>
  Claim C2, as the code has it. When no file exists at \<open>local_path\<close> and each of the
  three attempts fails, \<open>download_file\<close> returns \<open>False\<close> after exactly three requests,
  each followed by a sleep of one second (so that one second lies between an attempt
  and the next, and one more after the last), and the disk is what the three attempts
  leave one after the other: an attempt that does not get as far as opening the file
  leaves the disk as it found it, and an attempt that opens the file leaves it at
  \<open>local_path\<close> with what it wrote. So no file is at \<open>local_path\<close> when no attempt
  opened it, and otherwise the file holds what the last attempt that opened it wrote.
\<close>

theorem download_file_exhausts_retries:
  assumes "p \<notin> dom (disk w)"
    and "attempt_fails (session (gets w) u) (os (gets w) p)"
    and "attempt_fails (session (gets w @ [u]) u) (os (gets w @ [u]) p)"
    and "attempt_fails (session (gets w @ [u, u]) u) (os (gets w @ [u, u]) p)"
  shows "download_file session os u p w =
      (False,
       \<lparr>disk = attempt_disk (session (gets w @ [u, u]) u) (os (gets w @ [u, u]) p) p
                 (attempt_disk (session (gets w @ [u]) u) (os (gets w @ [u]) p) p
                   (attempt_disk (session (gets w) u) (os (gets w) p) p (disk w))),
        events = events w @ [Get u, Sleep 1, Get u, Sleep 1, Get u, Sleep 1]\<rparr>)
    \<and> (\<not> opens (session (gets w) u) (os (gets w) p)
        \<and> \<not> opens (session (gets w @ [u]) u) (os (gets w @ [u]) p)
        \<and> \<not> opens (session (gets w @ [u, u]) u) (os (gets w @ [u, u]) p)
        \<longrightarrow> disk (snd (download_file session os u p w)) = disk w
            \<and> p \<notin> dom (disk (snd (download_file session os u p w))))
    \<and> (opens (session (gets w @ [u, u]) u) (os (gets w @ [u, u]) p)
        \<longrightarrow> disk (snd (download_file session os u p w)) p
            = Some (written (session (gets w @ [u, u]) u) (os (gets w @ [u, u]) p)))
    \<and> (\<not> opens (session (gets w @ [u, u]) u) (os (gets w @ [u, u]) p)
        \<and> opens (session (gets w @ [u]) u) (os (gets w @ [u]) p)
        \<longrightarrow> disk (snd (download_file session os u p w)) p
            = Some (written (session (gets w @ [u]) u) (os (gets w @ [u]) p)))
    \<and> (\<not> opens (session (gets w @ [u, u]) u) (os (gets w @ [u, u]) p)
        \<and> \<not> opens (session (gets w @ [u]) u) (os (gets w @ [u]) p)
        \<and> opens (session (gets w) u) (os (gets w) p)
        \<longrightarrow> disk (snd (download_file session os u p w)) p
            = Some (written (session (gets w) u) (os (gets w) p)))"
proof -
  have "download_file session os u p w =
      (False,
       \<lparr>disk = attempt_disk (session (gets w @ [u, u]) u) (os (gets w @ [u, u]) p) p
                 (attempt_disk (session (gets w @ [u]) u) (os (gets w @ [u]) p) p
                   (attempt_disk (session (gets w) u) (os (gets w) p) p (disk w))),
        events = events w @ [Get u, Sleep 1, Get u, Sleep 1, Get u, Sleep 1]\<rparr>)"
    using assms by (simp add: download_file_def attempts_RETRIES attempt_eq gets_def)
  then show ?thesis using assms(1) by (auto simp: attempt_disk_def)
qed

theorem download_file_exhausts_retries_witness:
  "ascii ''f'' \<notin> dom (disk empty_world)
   \<and> attempt_fails (dead_server [] (ascii ''u'')) (writable [] (ascii ''f''))
   \<and> \<not> opens (dead_server [] (ascii ''u'')) (writable [] (ascii ''f''))
   \<and> download_file dead_server writable (ascii ''u'') (ascii ''f'') empty_world
       = (False, \<lparr>disk = Map.empty,
                  events = [Get (ascii ''u''), Sleep 1, Get (ascii ''u''), Sleep 1,
                            Get (ascii ''u''), Sleep 1]\<rparr>)"
proof -
  have a: "ascii ''f'' \<notin> dom (disk empty_world)" by (simp add: empty_world_def)
  have f: "attempt_fails (dead_server log (ascii ''u'')) (writable log (ascii ''f''))" for log
    by (simp add: attempt_fails_def remote_fails_def dead_server_def)
  have b: "\<not> opens (dead_server log (ascii ''u'')) (writable log (ascii ''f''))" for log
    by (simp add: opens_def dead_server_def)
  from download_file_exhausts_retries [where session = dead_server and os = writable and w = empty_world
      and u = "ascii ''u''" and p = "ascii ''f''"] a f b
  show ?thesis by (simp add: empty_world_def attempt_disk_def gets_def)
qed

text \<open>
  The claim as the specification states it fails: against a remote whose stream
  breaks after the chunk \<^verbatim>\<open>ab\<close> in every attempt, \<open>download_file\<close> returns \<open>False\<close> and
  a file holding \<^verbatim>\<open>ab\<close> is left at \<open>local_path\<close>.
\<close>

theorem download_file_leaves_partial_file:
  "ascii ''f'' \<notin> dom (disk empty_world)
   \<and> remote_fails (always_broken [] (ascii ''u''))
   \<and> remote_fails (always_broken [ascii ''u''] (ascii ''u''))
   \<and> remote_fails (always_broken [ascii ''u'', ascii ''u''] (ascii ''u''))
   \<and> fst (download_file always_broken writable (ascii ''u'') (ascii ''f'') empty_world) = False
   \<and> disk (snd (download_file always_broken writable (ascii ''u'') (ascii ''f'') empty_world))
        (ascii ''f'') = Some (ascii ''ab'')"
  by (simp add: download_file_def attempts_RETRIES attempt_def always_broken_def writable_def
      empty_world_def remote_fails_def raise_for_status_def handler_def gets_def)




section \<open>The downloader: links taken for files\<close>

text \<open>
  The filter of the crawler rejects every href that starts with a question mark or
  holds one of the sort parameters.
\<close>

lemma is_valid_file_rejects_sort_links:
  "startswith h (ascii ''?'') \<or> (\<exists>param \<in> set sort_params. contains h param) \<Longrightarrow>
   \<not> is_valid_file h"
  by (auto simp: is_valid_file_def list_ex_iff)

text \<open>
  Claim C3. The sort link \<^verbatim>\<open>?C=N;O=A\<close> is no valid file for the crawler, but the
  loop of \<open>crawl_from_number\<close> appends it to \<^verbatim>\<open>files\<close>: its test only asks for an href
  that is not empty, does not start with \<^verbatim>\<open>../\<close> or \<^verbatim>\<open>./\<close> and does not end in a
  slash.
\<close>

theorem sort_link_listed_as_file_by_downloader:
  "\<not> is_valid_file (ascii ''?C=N;O=A'')
   \<and> listed_files urljoin dir_url [\<lparr>href = Some (ascii ''?C=N;O=A''), size_cell = None\<rparr>]
       = [urljoin dir_url (ascii ''?C=N;O=A'')]"
  by (simp add: is_valid_file_def listed_files_def startswith_def endswith_def)

section \<open>The downloader: crawl\_from\_number\<close>

lemma probe_directory_eq:
  "probe_directory urljoin base_url p n =
     (if interrupted urljoin base_url p n then Stop else Next (n + 1))"
  by (auto simp: probe_directory_def interrupted_def Let_def split: outcome.splits)

lemma crawl_loop_Some:
  "crawl_loop urljoin base_url env i n = Some k \<Longrightarrow>
   \<exists>j. interrupted urljoin base_url (env (i + j)) (n + int j) \<and> k = n + int j"
proof (induction rule: crawl_loop.raw_induct [rotated 1, consumes 1])
  case (1 loop urljoin base_url env i n k)
  show ?case
  proof (cases "interrupted urljoin base_url (env i) n")
    case True
    then have "k = n" using 1(2) by (simp add: probe_directory_eq)
    with True show ?thesis by (intro exI [of _ 0]) simp
  next
    case False
    then have "loop urljoin base_url env (Suc i) (n + 1) = Some k"
      using 1(2) by (simp add: probe_directory_eq)
    from 1(1) [OF this] obtain j where
      "interrupted urljoin base_url (env (Suc i + j)) (n + 1 + int j)" "k = n + 1 + int j"
      by blast
    then show ?thesis by (intro exI [of _ "Suc j"]) (simp add: add.commute add.left_commute)
  qed
qed

lemma crawl_loop_first_interrupt:
  "interrupted urljoin base_url (env (i + j)) (n + int j) \<Longrightarrow>
   (\<And>j'. j' < j \<Longrightarrow> \<not> interrupted urljoin base_url (env (i + j')) (n + int j')) \<Longrightarrow>
   crawl_loop urljoin base_url env i n = Some (n + int j)"
proof (induction j arbitrary: i n)
  case 0
  then show ?case by (subst crawl_loop.simps) (simp add: probe_directory_eq)
next
  case (Suc j)
  have not0: "\<not> interrupted urljoin base_url (env i) n" using Suc.prems(2) [of 0] by simp
  have "crawl_loop urljoin base_url env (Suc i) (n + 1) = Some (n + 1 + int j)"
  proof (rule Suc.IH)
    show "interrupted urljoin base_url (env (Suc i + j)) (n + 1 + int j)"
      using Suc.prems(1) by (simp add: add.commute add.left_commute)
    show "\<not> interrupted urljoin base_url (env (Suc i + j')) (n + 1 + int j')" if "j' < j" for j'
      using Suc.prems(2) [of "Suc j'"] that by (simp add: add.commute add.left_commute)
  qed
  then show ?case using not0 by (subst crawl_loop.simps) (simp add: probe_directory_eq)
qed

text \<open>
  Claim C4. A round of the loop that no \<^verbatim>\<open>KeyboardInterrupt\<close> reaches goes on with
  \<open>current_num + 1\<close>, whatever else happens in it: a HEAD status other than 200, an
  exception, an empty list of files, or a finished download; in particular a round
  with no \<^verbatim>\<open>KeyboardInterrupt\<close> at all does. A round that one reaches ends the
  loop. So \<open>crawl_from_number\<close> never returns exactly when no round is interrupted,
  and it returns at the first interrupted round, round \<open>i\<close> being at directory
  \<open>start_num + i\<close>.
\<close>

theorem crawl_from_number_stops_only_on_interrupt:
  "probe_directory urljoin base_url p n
     = (if interrupted urljoin base_url p n then Stop else Next (n + 1))
   \<and> (head_status p \<noteq> Interrupted \<and> listing p \<noteq> Interrupted \<and> downloading p \<noteq> Interrupted
        \<longrightarrow> probe_directory urljoin base_url p n = Next (n + 1))
   \<and> (crawl_from_number urljoin env base_url start_num = None
        \<longleftrightarrow> (\<forall>i. \<not> interrupted urljoin base_url (env i) (start_num + int i)))
   \<and> (\<forall>k. crawl_from_number urljoin env base_url start_num = Some k
        \<longleftrightarrow> (\<exists>i. k = start_num + int i
               \<and> interrupted urljoin base_url (env i) (start_num + int i)
               \<and> (\<forall>j<i. \<not> interrupted urljoin base_url (env j) (start_num + int j))))"
proof -
  let ?I = "\<lambda>i. interrupted urljoin base_url (env i) (start_num + int i)"
  have ret: "crawl_from_number urljoin env base_url start_num = Some (start_num + int i)"
    if "?I i" "\<forall>j<i. \<not> ?I j" for i
    using crawl_loop_first_interrupt [of urljoin base_url env 0 i start_num] that
    by (simp add: crawl_from_number_def)
  have first: "\<exists>i. ?I i \<and> (\<forall>j<i. \<not> ?I j)" if "?I j" for j
  proof -
    define i where "i = (LEAST j. ?I j)"
    have "?I i" unfolding i_def using that by (rule LeastI)
    moreover have "\<forall>j<i. \<not> ?I j" unfolding i_def using not_less_Least by blast
    ultimately show ?thesis by blast
  qed
  have some: "\<exists>i. k = start_num + int i \<and> ?I i \<and> (\<forall>j<i. \<not> ?I j)"
    if "crawl_from_number urljoin env base_url start_num = Some k" for k
  proof -
    from crawl_loop_Some [of urljoin base_url env 0 start_num k] that
    obtain j where "?I j" by (auto simp: crawl_from_number_def)
    from first [OF this] obtain i where i: "?I i" "\<forall>j<i. \<not> ?I j" by blast
    then have "crawl_from_number urljoin env base_url start_num = Some (start_num + int i)"
      by (rule ret)
    with that have "k = start_num + int i" by simp
    with i show ?thesis by blast
  qed
  have part2: "crawl_from_number urljoin env base_url start_num = None \<longleftrightarrow> (\<forall>i. \<not> ?I i)"
  proof
    assume none: "crawl_from_number urljoin env base_url start_num = None"
    show "\<forall>i. \<not> ?I i"
    proof (rule ccontr)
      assume "\<not> (\<forall>i. \<not> ?I i)"
      then obtain j where "?I j" by blast
      from first [OF this] obtain i where "?I i" "\<forall>j<i. \<not> ?I j" by blast
      then show False using ret none by simp
    qed
  next
    assume "\<forall>i. \<not> ?I i"
    then show "crawl_from_number urljoin env base_url start_num = None"
      using some by (cases "crawl_from_number urljoin env base_url start_num") auto
  qed
  have part3: "\<forall>k. crawl_from_number urljoin env base_url start_num = Some k
        \<longleftrightarrow> (\<exists>i. k = start_num + int i \<and> ?I i \<and> (\<forall>j<i. \<not> ?I j))"
    using some ret by blast
  have part1: "head_status p \<noteq> Interrupted \<and> listing p \<noteq> Interrupted
        \<and> downloading p \<noteq> Interrupted
        \<longrightarrow> probe_directory urljoin base_url p n = Next (n + 1)"
    by (auto simp: probe_directory_def Let_def split: outcome.splits)
  show ?thesis using probe_directory_eq part1 part2 part3 by blast
qed

theorem crawl_from_number_stops_only_on_interrupt_witness:
  "crawl_from_number join (\<lambda>i. if i = 2 then ctrl_c else absent) (ascii ''http://h/'') 731 = Some 733
   \<and> crawl_from_number join (\<lambda>i. absent) (ascii ''http://h/'') 731 = None"
proof -
  have a: "\<not> interrupted join b absent n" for b n
    by (simp add: interrupted_def absent_def)
  have b: "interrupted join b ctrl_c n" for b n
    by (simp add: interrupted_def ctrl_c_def)
  have "\<exists>i. (733::int) = 731 + int i
          \<and> interrupted join (ascii ''http://h/'') (if i = 2 then ctrl_c else absent) (731 + int i)
          \<and> (\<forall>j<i. \<not> interrupted join (ascii ''http://h/'') (if j = 2 then ctrl_c else absent)
                      (731 + int j))"
    by (rule exI [of _ 2]) (simp add: a b)
  then have "crawl_from_number join (\<lambda>i. if i = 2 then ctrl_c else absent) (ascii ''http://h/'') 731
      = Some 733"
    using crawl_from_number_stops_only_on_interrupt [where urljoin = join
        and env = "\<lambda>i. if i = 2 then ctrl_c else absent"
        and base_url = "ascii ''http://h/''" and start_num = 731] by blast
  moreover have "crawl_from_number join (\<lambda>i. absent) (ascii ''http://h/'') 731 = None"
    using crawl_from_number_stops_only_on_interrupt [where urljoin = join
        and env = "\<lambda>i. absent" and base_url = "ascii ''http://h/''" and start_num = 731] a
    by blast
  ultimately show ?thesis by (rule conjI)
qed

end
